theory Spec2Isabelle
  imports Complex_Main "HOL-Library.AList"
begin

section \<open>SmartAgro: the request handlers of app.py\<close>

text \<open>
  The development embeds the Flask application \<^verbatim>\<open>src/app.py\<close>. A Python \<^verbatim>\<open>str\<close> is a
  \<^typ>\<open>string\<close>; a \<^typ>\<open>char\<close> stands for one code point below 256, so that
  \<^verbatim>\<open>str.lower\<close>, \<^verbatim>\<open>str.strip\<close> and \<^verbatim>\<open>str.split\<close> are exact on that range. Texts with
  higher code points lie outside the model. Python floats are modelled by exact rationals.
\<close>

subsection \<open>String operations of Python used by the handlers\<close>

text \<open>\<^verbatim>\<open>str.lower\<close> on one code point: A-Z and the upper-case letters of Latin-1 move by 32.\<close>

definition lower_char :: "char \<Rightarrow> char" where
  "lower_char c =
     (let n = (of_char c :: nat)
      in if (65 \<le> n \<and> n \<le> 90) \<or> (192 \<le> n \<and> n \<le> 214) \<or> (216 \<le> n \<and> n \<le> 222)
         then char_of (n + 32) else c)"

definition lower :: "string \<Rightarrow> string" where
  "lower s = map lower_char s"

text \<open>\<^verbatim>\<open>str.isspace\<close> on one code point below 256.\<close>

definition isspace :: "char \<Rightarrow> bool" where
  "isspace c =
     (let n = (of_char c :: nat)
      in (9 \<le> n \<and> n \<le> 13) \<or> (28 \<le> n \<and> n \<le> 32) \<or> n = 133 \<or> n = 160)"

text \<open>\<^verbatim>\<open>s.strip(chars)\<close> with the stripped characters as a predicate; \<^verbatim>\<open>s.strip()\<close>.\<close>

definition strip_chars :: "(char \<Rightarrow> bool) \<Rightarrow> string \<Rightarrow> string" where
  "strip_chars P s = rev (dropWhile P (rev (dropWhile P s)))"

definition strip :: "string \<Rightarrow> string" where
  "strip s = strip_chars isspace s"

text \<open>
  \<^verbatim>\<open>s.rsplit(sep, 1)\<close> for a one-character separator: the text is cut at the last
  occurrence of the separator, and is returned whole when there is none.
\<close>

definition rsplit1 :: "char \<Rightarrow> string \<Rightarrow> string list" where
  "rsplit1 sep s =
     (if sep \<in> set s
      then [rev (tl (dropWhile (\<lambda>c. c \<noteq> sep) (rev s))), rev (takeWhile (\<lambda>c. c \<noteq> sep) (rev s))]
      else [s])"

subsection \<open>Configuration\<close>

text \<open>\<^verbatim>\<open>os.path.join(a, b)\<close> of \<^verbatim>\<open>posixpath\<close>, for two arguments.\<close>

definition os_path_join :: "string \<Rightarrow> string \<Rightarrow> string" where
  "os_path_join a b =
     (if b \<noteq> [] \<and> hd b = CHR ''/'' then b
      else if a = [] \<or> last a = CHR ''/'' then a @ b
      else a @ ''/'' @ b)"

definition UPLOAD_FOLDER :: string where
  "UPLOAD_FOLDER = os_path_join ''static'' ''uploads''"

definition ALLOWED_EXTENSIONS :: "string set" where
  "ALLOWED_EXTENSIONS = {''png'', ''jpg'', ''jpeg''}"

definition class_names :: "string list" where
  "class_names = [''Healthy'', ''Mosaic'', ''RedRot'', ''Rust'', ''Yellow'']"

subsection \<open>Upload validation\<close>

text \<open>
  \<^verbatim>\<open>'.' in filename and filename.rsplit('.', 1)[1].lower() in ALLOWED_EXTENSIONS\<close>.
  The index 1 is read only when the dot is there, so it is always in range.
\<close>

definition allowed_file :: "string \<Rightarrow> bool" where
  "allowed_file filename =
     (CHR ''.'' \<in> set filename \<and> lower (rsplit1 CHR ''.'' filename ! 1) \<in> ALLOWED_EXTENSIONS)"

text \<open>
  A part of the multipart form: werkzeug's \<^verbatim>\<open>FileStorage\<close>, with its file name and the
  bytes of its stream. Its truth value is that of its file name
  (\<^verbatim>\<open>FileStorage.__bool__\<close> is \<^verbatim>\<open>bool(self.filename)\<close>); the stream is not looked at.
\<close>

record file_storage =
  filename :: string
  content :: "nat list"

definition file_truthy :: "file_storage option \<Rightarrow> bool" where
  "file_truthy file = (case file of None \<Rightarrow> False | Some f \<Rightarrow> filename f \<noteq> [])"

text \<open>
  The guard of line 132:
  \<^verbatim>\<open>file and file.filename != "" and allowed_file(file.filename)\<close>,
  where \<^verbatim>\<open>file\<close> is \<^verbatim>\<open>request.files.get("leaf_image")\<close>.
\<close>

definition upload_accepted :: "file_storage option \<Rightarrow> bool" where
  "upload_accepted file =
     (case file of
        None \<Rightarrow> False
      | Some f \<Rightarrow> file_truthy file \<and> filename f \<noteq> [] \<and> allowed_file (filename f))"

subsection \<open>Errors, responses and the state of the application\<close>

text \<open>
  The exceptions that occur in the handlers. \<open>Raised\<close> is an exception that comes out of
  an external collaborator (the image decoder, the Keras model, the file system).
\<close>

datatype py_error = IndexError | ValueError | IntegrityError | FileNotFoundError | Raised string

datatype http_method = GET | POST

text \<open>One entry of the session's history (the dict appended at line 146).\<close>

record diagnosis =
  rec_filename :: string
  prediction :: string
  confidence :: rat
  image_url :: string

text \<open>
  What a handler returns: a redirect to a URL, or a rendered template with the values
  passed to it.
\<close>

datatype response =
    Redirect string
  | Index_page
  | Signup_page "string option"
  | Login_page "string option"
  | Diagnose_page "string option" "rat option" "string option"
  | Info_page string
  | About_page
  | History_page "diagnosis list"
  | Text string

text \<open>
  Flask's \<^verbatim>\<open>session\<close>: a dict in which the handlers use the keys \<^verbatim>\<open>"user"\<close> and
  \<^verbatim>\<open>"history"\<close>; \<open>None\<close> is an absent key.
\<close>

record session =
  sess_user :: "string option"
  sess_history :: "diagnosis list option"

text \<open>A row of the table \<^verbatim>\<open>users\<close> created by \<^verbatim>\<open>init_db\<close>.\<close>

record user_row =
  row_id :: nat
  row_username :: string
  row_password :: string

text \<open>
  Everything a request can change: the session of the client, the table \<^verbatim>\<open>users\<close> with
  the next value of its AUTOINCREMENT key, and the files on disk (path and bytes).
\<close>

record world =
  session :: session
  users :: "user_row list"
  next_id :: nat
  files :: "(string \<times> nat list) list"

type_synonym result = "py_error + response \<times> world"

text \<open>
  The external collaborators, as parameters: passlib's bcrypt (the hash takes the salt it
  draws), the Unicode step of \<^verbatim>\<open>secure_filename\<close>, the image decoder behind
  \<^verbatim>\<open>load_img\<close> and \<^verbatim>\<open>img_to_array\<close>, and \<^verbatim>\<open>model.predict\<close>.
\<close>

record env =
  bcrypt_hash :: "nat list \<Rightarrow> string \<Rightarrow> string"
  bcrypt_verify :: "string \<Rightarrow> string \<Rightarrow> bool"
  nfkd_ascii :: "string \<Rightarrow> string"
  load_img :: "nat list \<Rightarrow> py_error + rat list"
  model_predict :: "rat list list \<Rightarrow> py_error + rat list list"

text \<open>
  \<^verbatim>\<open>url_for\<close> for the routes of this application: every endpoint is served at the path
  of its name, \<^verbatim>\<open>index\<close> at the root, and static files below \<^verbatim>\<open>/static/\<close>.
\<close>

definition url_for :: "string \<Rightarrow> string" where
  "url_for endpoint = (if endpoint = ''index'' then ''/'' else ''/'' @ endpoint)"

definition url_for_static :: "string \<Rightarrow> string" where
  "url_for_static name = ''/static/'' @ name"

subsection \<open>The table of users\<close>

text \<open>
  The INSERT of line 83 followed by the commit: \<^verbatim>\<open>username\<close> is UNIQUE, so a second row
  with the same name raises \<^verbatim>\<open>sqlite3.IntegrityError\<close> and leaves the table as it was.
\<close>

definition insert_user :: "string \<Rightarrow> string \<Rightarrow> world \<Rightarrow> py_error + world" where
  "insert_user u p w =
     (if u \<in> set (map row_username (users w)) then Inl IntegrityError
      else Inr (w\<lparr>users := users w @ [\<lparr>row_id = next_id w, row_username = u, row_password = p\<rparr>],
                  next_id := Suc (next_id w)\<rparr>))"

text \<open>\<^verbatim>\<open>SELECT * FROM users WHERE username=?\<close> with \<^verbatim>\<open>fetchone()\<close>.\<close>

definition select_user :: "string \<Rightarrow> world \<Rightarrow> user_row option" where
  "select_user u w = find (\<lambda>r. row_username r = u) (users w)"

subsection \<open>The storage name of an upload\<close>

text \<open>\<^verbatim>\<open>s.split()\<close>: the maximal runs of characters that are not white space.\<close>

function split_ws :: "string \<Rightarrow> string list" where
  "split_ws s =
     (case dropWhile isspace s of
        [] \<Rightarrow> []
      | c # cs \<Rightarrow> takeWhile (\<lambda>x. \<not> isspace x) (c # cs) # split_ws (dropWhile (\<lambda>x. \<not> isspace x) cs))"
  by pat_completeness auto
termination
proof (relation "measure length")
  fix s :: string and c cs
  assume "dropWhile isspace s = c # cs"
  then have "length cs < length s"
    by (metis length_dropWhile_le length_Cons less_Suc_eq_le not_less)
  moreover have "length (dropWhile (\<lambda>x. \<not> isspace x) cs) \<le> length cs"
    by (rule length_dropWhile_le)
  ultimately show "(dropWhile (\<lambda>x. \<not> isspace x) cs, s) \<in> measure length"
    by simp
qed simp

text \<open>\<^verbatim>\<open>sep.join(parts)\<close>.\<close>

fun join :: "string \<Rightarrow> string list \<Rightarrow> string" where
  "join sep [] = []"
| "join sep [x] = x"
| "join sep (x # y # ys) = x @ sep @ join sep (y # ys)"

text \<open>The characters kept by the pattern \<^verbatim>\<open>[^A-Za-z0-9_.-]\<close> of werkzeug.\<close>

definition safe_char :: "char \<Rightarrow> bool" where
  "safe_char c =
     (let n = (of_char c :: nat)
      in (65 \<le> n \<and> n \<le> 90) \<or> (97 \<le> n \<and> n \<le> 122) \<or> (48 \<le> n \<and> n \<le> 57)
         \<or> c = CHR ''_'' \<or> c = CHR ''.'' \<or> c = CHR ''-'')"

text \<open>
  Modelled from the spec: \<^verbatim>\<open>secure_filename\<close> is \<^verbatim>\<open>werkzeug.utils.secure_filename\<close>,
  a library function that is not part of the repository's sources. The specification says
  that the validated name "strips path components and unsafe characters from the original
  filename". The definition follows the library's steps on a POSIX system: the name is
  normalised to ASCII (the parameter \<open>nf\<close>, for \<^verbatim>\<open>unicodedata.normalize("NFKD", _)\<close>
  and the ASCII encoding that ignores the rest), each path separator becomes a blank, the
  runs of white space become one underscore each, every character outside
  \<^verbatim>\<open>A-Za-z0-9_.-\<close> is dropped, and dots and underscores are stripped from both ends.
\<close>

definition secure_filename :: "(string \<Rightarrow> string) \<Rightarrow> string \<Rightarrow> string" where
  "secure_filename nf name =
     (let s1 = nf name;
          s2 = map (\<lambda>c. if c = CHR ''/'' then CHR '' '' else c) s1;
          s3 = join ''_'' (split_ws s2);
          s4 = filter safe_char s3
      in strip_chars (\<lambda>c. c = CHR ''.'' \<or> c = CHR ''_'') s4)"

text \<open>
  \<^verbatim>\<open>file.save(file_path)\<close>: the bytes are written at the path, replacing what was there.
  A path that names a directory cannot be opened for writing.
\<close>

definition file_save :: "string \<Rightarrow> nat list \<Rightarrow> world \<Rightarrow> py_error + world" where
  "file_save path bytes w =
     (if path = [] \<or> last path = CHR ''/'' then Inl (Raised ''IsADirectoryError'')
      else Inr (w\<lparr>files := AList.update path bytes (files w)\<rparr>))"

subsection \<open>Resolving a path\<close>

text \<open>\<^verbatim>\<open>s.split(sep)\<close> for a one-character separator.\<close>

fun split_on :: "char \<Rightarrow> string \<Rightarrow> string list" where
  "split_on sep [] = [[]]"
| "split_on sep (c # cs) =
     (if c = sep then [] # split_on sep cs
      else (case split_on sep cs of [] \<Rightarrow> [[c]] | p # ps \<Rightarrow> (c # p) # ps))"



subsection \<open>The numeric steps of the classification\<close>

text \<open>
  \<^verbatim>\<open>np.argmax\<close> on the flattened array: the index of the first greatest entry;
  \<^verbatim>\<open>ValueError\<close> on an empty array. The loop carries the position, the best index and the
  best value.
\<close>

fun argmax_loop :: "rat list \<Rightarrow> nat \<Rightarrow> nat \<Rightarrow> rat \<Rightarrow> nat" where
  "argmax_loop [] i best v = best"
| "argmax_loop (x # xs) i best v =
     (if v < x then argmax_loop xs (Suc i) i x else argmax_loop xs (Suc i) best v)"

definition np_argmax :: "rat list \<Rightarrow> py_error + nat" where
  "np_argmax xs = (case xs of [] \<Rightarrow> Inl ValueError | x # rest \<Rightarrow> Inr (argmax_loop rest 1 0 x))"

definition np_max :: "rat list \<Rightarrow> py_error + rat" where
  "np_max xs = (case xs of [] \<Rightarrow> Inl ValueError | x # rest \<Rightarrow> Inr (fold max rest x))"

text \<open>\<^verbatim>\<open>xs[i]\<close> for an index that is not negative.\<close>

definition getitem :: "'a list \<Rightarrow> nat \<Rightarrow> py_error + 'a" where
  "getitem xs i = (if i < length xs then Inr (xs ! i) else Inl IndexError)"

text \<open>
  \<^verbatim>\<open>round(x, ndigits)\<close>: the nearest multiple of \<open>10\<close> to the power \<open>- ndigits\<close>, a tie going
  to the even one.
\<close>

definition round_half_even :: "rat \<Rightarrow> int" where
  "round_half_even y =
     (let f = \<lfloor>y\<rfloor>; d = y - of_int f
      in if d < 1 / 2 then f else if 1 / 2 < d then f + 1 else if even f then f else f + 1)"

definition py_round :: "rat \<Rightarrow> nat \<Rightarrow> rat" where
  "py_round x ndigits = of_int (round_half_even (x * 10 ^ ndigits)) / 10 ^ ndigits"

subsection \<open>The handlers\<close>

text \<open>\<^verbatim>\<open>prepare_image\<close>: the file is read and decoded, scaled by 255 and put in a batch of one.\<close>

definition prepare_image :: "env \<Rightarrow> world \<Rightarrow> string \<Rightarrow> py_error + rat list list" where
  "prepare_image e w image_path =
     (case map_of (files w) image_path of
        None \<Rightarrow> Inl FileNotFoundError
      | Some bytes \<Rightarrow>
          (case load_img e bytes of
             Inl err \<Rightarrow> Inl err
           | Inr img \<Rightarrow> Inr [map (\<lambda>x. x / 255) img]))"

text \<open>\<^verbatim>\<open>require_login\<close>: the redirect to the login page, or nothing.\<close>

definition require_login :: "world \<Rightarrow> response option" where
  "require_login w =
     (if sess_user (session w) = None then Some (Redirect (url_for ''login'')) else None)"

definition index :: "world \<Rightarrow> result" where
  "index w =
     (if sess_user (session w) = None then Inr (Redirect (url_for ''login''), w)
      else Inr (Index_page, w))"

text \<open>The form of the signup and login pages, with both of its fields.\<close>

record credentials =
  username :: string
  password :: string

text \<open>
  \<^verbatim>\<open>signup\<close>. Only \<^verbatim>\<open>sqlite3.IntegrityError\<close> is caught at line 87; the salt is the one
  that \<^verbatim>\<open>bcrypt.hash\<close> draws for this request.
\<close>

definition signup :: "env \<Rightarrow> nat list \<Rightarrow> http_method \<Rightarrow> credentials \<Rightarrow> world \<Rightarrow> result" where
  "signup e salt m form w =
     (if m = POST then
        (let u = strip (username form); p = strip (password form)
         in if u = [] \<or> p = [] then
              Inr (Signup_page (Some ''Username and password required''), w)
            else
              (let hashed_pw = bcrypt_hash e salt p
               in case insert_user u hashed_pw w of
                    Inr w' \<Rightarrow> Inr (Redirect (url_for ''login''), w')
                  | Inl err \<Rightarrow>
                      if err = IntegrityError
                      then Inr (Signup_page (Some ''Username already exists''), w)
                      else Inl err))
      else Inr (Signup_page None, w))"

text \<open>\<^verbatim>\<open>login\<close>; \<^verbatim>\<open>session.setdefault("history", [])\<close> keeps a history that is there.\<close>

definition login :: "env \<Rightarrow> http_method \<Rightarrow> credentials \<Rightarrow> world \<Rightarrow> result" where
  "login e m form w =
     (if m = POST then
        (let u = strip (username form); p = strip (password form); row = select_user u w
         in if (case row of None \<Rightarrow> False | Some r \<Rightarrow> bcrypt_verify e p (row_password r)) then
              Inr (Redirect (url_for ''index''),
                   w\<lparr>session := (session w)\<lparr>sess_user := Some u,
                        sess_history :=
                          (case sess_history (session w) of
                             None \<Rightarrow> Some [] | Some h \<Rightarrow> Some h)\<rparr>\<rparr>)
            else Inr (Login_page (Some ''Invalid credentials''), w))
      else Inr (Login_page None, w))"

definition logout :: "world \<Rightarrow> result" where
  "logout w =
     Inr (Redirect (url_for ''login''),
          w\<lparr>session := (session w)\<lparr>sess_user := None, sess_history := None\<rparr>\<rparr>)"

text \<open>\<^verbatim>\<open>session.get("history", [])\<close>.\<close>

definition get_history :: "world \<Rightarrow> diagnosis list" where
  "get_history w = (case sess_history (session w) of None \<Rightarrow> [] | Some h \<Rightarrow> h)"

text \<open>
  The body of the \<^verbatim>\<open>try\<close> of lines 139 to 152: the prediction, the label, the confidence,
  the URL of the image, and the session with the new entry at the end of its history.
\<close>

definition try_predict ::
  "env \<Rightarrow> string \<Rightarrow> rat list list \<Rightarrow> world \<Rightarrow> py_error + (string \<times> rat \<times> string) \<times> world" where
  "try_predict e name img w =
     (case model_predict e img of
        Inl err \<Rightarrow> Inl err
      | Inr preds \<Rightarrow>
          (case np_argmax (concat preds) of
             Inl err \<Rightarrow> Inl err
           | Inr i \<Rightarrow>
               (case getitem class_names i of
                  Inl err \<Rightarrow> Inl err
                | Inr label \<Rightarrow>
                    (case np_max (concat preds) of
                       Inl err \<Rightarrow> Inl err
                     | Inr m \<Rightarrow>
                         (let conf = py_round (m * 100) 2;
                              url = url_for_static (''uploads/'' @ name);
                              history = get_history w;
                              history' = history @
                                [\<lparr>rec_filename = name, prediction = label,
                                  confidence = conf, image_url = url\<rparr>]
                          in Inr ((label, conf, url),
                                  w\<lparr>session := (session w)\<lparr>sess_history := Some history'\<rparr>\<rparr>))))))"

text \<open>
  \<^verbatim>\<open>diagnose\<close>. The file is saved and \<^verbatim>\<open>prepare_image\<close> is called at line 137, before
  the \<^verbatim>\<open>try\<close> of line 138: an error of these two steps leaves the handler. An error
  inside the \<^verbatim>\<open>try\<close> is caught at line 154, where the result becomes \<^verbatim>\<open>"Error"\<close> and 0.
  The upload is looked at for a POST only; \<open>file\<close> is \<^verbatim>\<open>request.files.get("leaf_image")\<close>.
\<close>

definition diagnose :: "env \<Rightarrow> http_method \<Rightarrow> file_storage option \<Rightarrow> world \<Rightarrow> result" where
  "diagnose e m file w =
     (case require_login w of
        Some gate \<Rightarrow> Inr (gate, w)
      | None \<Rightarrow>
          (case (if m = POST then file else None) of
             None \<Rightarrow> Inr (Diagnose_page None None None, w)
           | Some f \<Rightarrow>
               if upload_accepted file then
                 (let name = secure_filename (nfkd_ascii e) (filename f);
                      file_path = os_path_join UPLOAD_FOLDER name
                  in case file_save file_path (content f) w of
                       Inl err \<Rightarrow> Inl err
                     | Inr w1 \<Rightarrow>
                         (case prepare_image e w1 file_path of
                            Inl err \<Rightarrow> Inl err
                          | Inr img \<Rightarrow>
                              (case try_predict e name img w1 of
                                 Inr ((label, conf, url), w2) \<Rightarrow>
                                   Inr (Diagnose_page (Some label) (Some conf) (Some url), w2)
                               | Inl err \<Rightarrow>
                                   Inr (Diagnose_page (Some ''Error'') (Some 0) None, w1))))
               else Inr (Diagnose_page None None None, w)))"

definition info :: "string \<Rightarrow> world \<Rightarrow> result" where
  "info disease w =
     (case require_login w of
        Some gate \<Rightarrow> Inr (gate, w)
      | None \<Rightarrow> Inr (Info_page disease, w))"

definition about :: "world \<Rightarrow> result" where
  "about w = Inr (About_page, w)"

definition history :: "world \<Rightarrow> result" where
  "history w =
     (case require_login w of
        Some gate \<Rightarrow> Inr (gate, w)
      | None \<Rightarrow> Inr (History_page (get_history w), w))"

text \<open>\<^verbatim>\<open>clear_history\<close>: \<^verbatim>\<open>session.pop("history", None)\<close> removes the key.\<close>

definition clear_history :: "world \<Rightarrow> result" where
  "clear_history w =
     (case require_login w of
        Some gate \<Rightarrow> Inr (gate, w)
      | None \<Rightarrow> Inr (Redirect (url_for ''history''), w\<lparr>session := (session w)\<lparr>sess_history := None\<rparr>\<rparr>))"

definition ping :: "world \<Rightarrow> result" where
  "ping w = Inr (Text ''pong'', w)"

subsection \<open>The validator as the specification words it\<close>

text \<open>
  The specification rejects an upload for an empty file name, for empty content, and for
  an extension outside the allowed set, the extension being the final segment of the name
  between dots, compared without regard to case. This predicate follows those words and
  is compared with \<open>upload_accepted\<close> below.
\<close>

definition final_segment :: "string \<Rightarrow> string" where
  "final_segment s = last (split_on CHR ''.'' s)"

definition spec_rejected :: "file_storage \<Rightarrow> bool" where
  "spec_rejected f =
     (filename f = [] \<or> content f = [] \<or> lower (final_segment (filename f)) \<notin> ALLOWED_EXTENSIONS)"

subsection \<open>Test doubles for the external collaborators\<close>

text \<open>
  Stand-ins used to run the handlers on concrete requests: a hash that keeps the password,
  a Unicode step that keeps the ASCII characters, a decoder that fails on an empty
  stream, and a classifier that always answers with the same probabilities, the greatest
  being 0.87 for the fourth class.
\<close>

definition stub_env :: env where
  "stub_env =
     \<lparr>bcrypt_hash = (\<lambda>salt p. p),
      bcrypt_verify = (\<lambda>p h. p = h),
      nfkd_ascii = filter (\<lambda>c. (of_char c :: nat) < 128),
      load_img = (\<lambda>bytes. if bytes = [] then Inl (Raised ''UnidentifiedImageError'')
                           else Inr (map of_nat bytes)),
      model_predict = (\<lambda>img. Inr [[1 / 100, 2 / 100, 5 / 100, 87 / 100, 5 / 100]])\<rparr>"

text \<open>The same with a classifier that is not available.\<close>

definition broken_model_env :: env where
  "broken_model_env = stub_env\<lparr>model_predict := (\<lambda>img. Inl (Raised ''model unavailable''))\<rparr>"

text \<open>A world in which alice has signed up and logged in, and one with nobody logged in.\<close>

definition alice_world :: world where
  "alice_world =
     \<lparr>session = \<lparr>sess_user = Some ''alice'', sess_history = Some []\<rparr>,
      users = [\<lparr>row_id = 1, row_username = ''alice'', row_password = ''pw123''\<rparr>],
      next_id = 2,
      files = []\<rparr>"

definition anonymous_world :: world where
  "anonymous_world = alice_world\<lparr>session := \<lparr>sess_user = None, sess_history = None\<rparr>\<rparr>"

subsection \<open>A sequence of uploads in one session\<close>

text \<open>
  The client posts the files one after the other to \<^verbatim>\<open>/diagnose\<close>; each request starts
  from the state the one before left. An exception that leaves the handler ends the run.
\<close>

fun diagnose_all :: "env \<Rightarrow> file_storage list \<Rightarrow> world \<Rightarrow> py_error + response list \<times> world" where
  "diagnose_all e [] w = Inr ([], w)"
| "diagnose_all e (f # fs) w =
     (case diagnose e POST (Some f) w of
        Inl err \<Rightarrow> Inl err
      | Inr (r, w1) \<Rightarrow>
          (case diagnose_all e fs w1 of
             Inl err \<Rightarrow> Inl err
           | Inr (rs, w2) \<Rightarrow> Inr (r # rs, w2)))"

text \<open>
  The answer of a successful diagnosis: the page with a prediction, a confidence and the
  URL of the image, which is set at line 142 only.
\<close>

fun recorded :: "response \<Rightarrow> bool" where
  "recorded (Diagnose_page (Some label) (Some conf) (Some url)) = True"
| "recorded _ = False"

text \<open>An entry of the history agrees with the upload and the answer it comes from.\<close>

definition entry_matches :: "env \<Rightarrow> diagnosis \<Rightarrow> file_storage \<times> response \<Rightarrow> bool" where
  "entry_matches e d fr =
     (snd fr = Diagnose_page (Some (prediction d)) (Some (confidence d)) (Some (image_url d))
      \<and> rec_filename d = secure_filename (nfkd_ascii e) (filename (fst fr)))"

section \<open>Properties of the handlers\<close>

subsection \<open>Upload validation\<close>

lemma rsplit1_cut:
  assumes "sep \<in> set s"
  shows "\<exists>a b. rsplit1 sep s = [a, b] \<and> s = a @ sep # b \<and> sep \<notin> set b"
proof -
  let ?P = "\<lambda>c. c \<noteq> sep"
  have ne: "dropWhile ?P (rev s) \<noteq> []" using assms by (simp add: dropWhile_eq_Nil_conv)
  have hd: "hd (dropWhile ?P (rev s)) = sep" using hd_dropWhile[OF ne] by simp
  have "rev s = takeWhile ?P (rev s) @ sep # tl (dropWhile ?P (rev s))"
    using ne hd by (metis takeWhile_dropWhile_id list.collapse)
  then have "s = rev (tl (dropWhile ?P (rev s))) @ sep # rev (takeWhile ?P (rev s))"
    by (metis rev_append rev.simps(2) rev_rev_ident append.assoc append_Cons append_Nil)
  moreover have "sep \<notin> set (rev (takeWhile ?P (rev s)))"
    using set_takeWhileD by fastforce
  ultimately show ?thesis using assms unfolding rsplit1_def by auto
qed

lemma rsplit1_at_last:
  assumes "s = a @ sep # b" "sep \<notin> set b"
  shows "rsplit1 sep s = [a, b]"
proof -
  let ?P = "\<lambda>c. c \<noteq> sep"
  have all: "\<And>x. x \<in> set (rev b) \<Longrightarrow> ?P x" using assms(2) by auto
  have rs: "rev s = rev b @ sep # rev a" using assms(1) by simp
  have t: "takeWhile ?P (rev s) = rev b"
    unfolding rs using all by (simp add: takeWhile_append2 del: set_rev)
  have d: "dropWhile ?P (rev s) = sep # rev a"
    unfolding rs using all by (simp add: dropWhile_append2 del: set_rev)
  show ?thesis unfolding rsplit1_def t d using assms(1) by simp
qed

lemma allowed_file_iff:
  "allowed_file name \<longleftrightarrow>
     (\<exists>stem ext. name = stem @ CHR ''.'' # ext \<and> CHR ''.'' \<notin> set ext \<and> lower ext \<in> ALLOWED_EXTENSIONS)"
proof
  assume a: "allowed_file name"
  then have m: "CHR ''.'' \<in> set name" by (simp add: allowed_file_def)
  from rsplit1_cut[OF m] obtain stem ext where
    r: "rsplit1 CHR ''.'' name = [stem, ext]" and n: "name = stem @ CHR ''.'' # ext"
    and d: "CHR ''.'' \<notin> set ext" by blast
  from a r have "lower ext \<in> ALLOWED_EXTENSIONS" by (simp add: allowed_file_def)
  with n d show "\<exists>stem ext. name = stem @ CHR ''.'' # ext \<and> CHR ''.'' \<notin> set ext \<and> lower ext \<in> ALLOWED_EXTENSIONS"
    by blast
next
  assume "\<exists>stem ext. name = stem @ CHR ''.'' # ext \<and> CHR ''.'' \<notin> set ext \<and> lower ext \<in> ALLOWED_EXTENSIONS"
  then obtain stem ext where n: "name = stem @ CHR ''.'' # ext" and d: "CHR ''.'' \<notin> set ext"
    and l: "lower ext \<in> ALLOWED_EXTENSIONS" by blast
  have "rsplit1 CHR ''.'' name = [stem, ext]" by (rule rsplit1_at_last[OF n d])
  moreover have "CHR ''.'' \<in> set name" using n by simp
  ultimately show "allowed_file name" using l by (simp add: allowed_file_def)
qed

text \<open>
  Claim C2, as the code has it. An upload is accepted exactly when the form carries the
  file part and its file name ends in a dot followed by a dot-free extension that is
  \<^verbatim>\<open>png\<close>, \<^verbatim>\<open>jpg\<close> or \<^verbatim>\<open>jpeg\<close> in any mix of cases; the content plays no part.
  In particular \<^verbatim>\<open>leaf.exe\<close> is rejected, \<^verbatim>\<open>leaf.JPG\<close> is accepted, and an empty file
  name or a missing part is rejected, whatever the content.
\<close>

theorem C2_upload_accepted_iff:
  "(upload_accepted up \<longleftrightarrow>
      (\<exists>f stem ext. up = Some f \<and> filename f = stem @ CHR ''.'' # ext \<and>
          CHR ''.'' \<notin> set ext \<and> lower ext \<in> ALLOWED_EXTENSIONS))
   \<and> \<not> upload_accepted (Some \<lparr>filename = ''leaf.exe'', content = bytes\<rparr>)
   \<and> upload_accepted (Some \<lparr>filename = ''leaf.JPG'', content = bytes\<rparr>)
   \<and> \<not> upload_accepted (Some \<lparr>filename = [], content = bytes\<rparr>)
   \<and> \<not> upload_accepted None"
proof -
  have iff: "upload_accepted up \<longleftrightarrow>
      (\<exists>f stem ext. up = Some f \<and> filename f = stem @ CHR ''.'' # ext \<and>
          CHR ''.'' \<notin> set ext \<and> lower ext \<in> ALLOWED_EXTENSIONS)"
  proof (cases up)
    case None
    then show ?thesis by (simp add: upload_accepted_def)
  next
    case (Some f)
    have "allowed_file (filename f) \<Longrightarrow> filename f \<noteq> []"
      by (auto simp: allowed_file_def)
    then show ?thesis using Some
      by (auto simp: upload_accepted_def file_truthy_def allowed_file_iff)
  qed
  have exe: "\<not> allowed_file ''leaf.exe''" by code_simp
  have jpg: "allowed_file ''leaf.JPG''" by code_simp
  show ?thesis using iff exe jpg
    by (simp add: upload_accepted_def file_truthy_def)
qed

theorem C2_upload_accepted_iff_witness:
  "upload_accepted (Some \<lparr>filename = ''leaf.JPG'', content = [255, 216]\<rparr>)"
  using C2_upload_accepted_iff [of "Some \<lparr>filename = ''leaf.JPG'', content = [255, 216]\<rparr>" "[255, 216]"]
  by blast

text \<open>
  Claim C2 as stated fails: a file named \<^verbatim>\<open>leaf.png\<close> with no content is accepted,
  although the specification's validator rejects empty content.
\<close>

theorem C2_empty_content_counterexample:
  "\<not> (\<not> upload_accepted (Some \<lparr>filename = ''leaf.png'', content = []\<rparr>)
        \<longleftrightarrow> spec_rejected \<lparr>filename = ''leaf.png'', content = []\<rparr>)"
  by (simp add: spec_rejected_def upload_accepted_def file_truthy_def, code_simp)

subsection \<open>The gate of the protected routes\<close>

text \<open>
  Claim C9. A request to a protected route (the index, \<^verbatim>\<open>/diagnose\<close>, \<^verbatim>\<open>/history\<close>,
  \<^verbatim>\<open>/clear_history\<close>, \<^verbatim>\<open>/info/<disease>\<close>) in a session without a logged-in user is
  answered with the redirect to the login page, and the session, the table of users and the
  files are left as they were, whatever the method and the upload.
\<close>

theorem C9_protected_routes_redirect:
  assumes "sess_user (session w) = None"
  shows "index w = Inr (Redirect ''/login'', w)
       \<and> diagnose e m file w = Inr (Redirect ''/login'', w)
       \<and> history w = Inr (Redirect ''/login'', w)
       \<and> clear_history w = Inr (Redirect ''/login'', w)
       \<and> info disease w = Inr (Redirect ''/login'', w)"
  using assms
  by (simp add: index_def diagnose_def history_def clear_history_def info_def
      require_login_def url_for_def)

theorem C9_protected_routes_redirect_witness:
  "sess_user (session anonymous_world) = None
   \<and> diagnose stub_env POST (Some \<lparr>filename = ''leaf.png'', content = [1]\<rparr>) anonymous_world
       = Inr (Redirect ''/login'', anonymous_world)
   \<and> clear_history anonymous_world = Inr (Redirect ''/login'', anonymous_world)"
proof -
  have h: "sess_user (session anonymous_world) = None"
    by (simp add: anonymous_world_def alice_world_def)
  show ?thesis
    using h C9_protected_routes_redirect [OF h, of stub_env POST "Some \<lparr>filename = ''leaf.png'', content = [1]\<rparr>"]
    by simp
qed

subsection \<open>Login and signup\<close>

lemma select_user_None:
  "select_user u w = None \<longleftrightarrow> u \<notin> set (map row_username (users w))"
  by (auto simp: select_user_def find_None_iff)

lemma select_user_Some:
  "select_user u w = Some r \<Longrightarrow> r \<in> set (users w) \<and> row_username r = u"
  by (auto simp: select_user_def find_Some_iff)

text \<open>
  Claim C6. A login with an unknown user name and a login with a known user name and a
  password that does not verify get the same answer, the login page with the message
  \<^verbatim>\<open>Invalid credentials\<close>, and neither changes the session nor anything else.
\<close>

theorem C6_failed_login_uniform:
  assumes unknown: "strip (username f1) \<notin> set (map row_username (users w1))"
    and known: "strip (username f2) \<in> set (map row_username (users w2))"
    and wrong: "\<forall>r \<in> set (users w2). row_username r = strip (username f2) \<longrightarrow>
                  \<not> bcrypt_verify e (strip (password f2)) (row_password r)"
  shows "login e POST f1 w1 = Inr (Login_page (Some ''Invalid credentials''), w1)
       \<and> login e POST f2 w2 = Inr (Login_page (Some ''Invalid credentials''), w2)"
proof -
  have "select_user (strip (username f1)) w1 = None"
    using unknown by (simp add: select_user_None)
  then have one: "login e POST f1 w1 = Inr (Login_page (Some ''Invalid credentials''), w1)"
    by (simp add: login_def)
  have "\<not> (case select_user (strip (username f2)) w2 of
              None \<Rightarrow> False
            | Some r \<Rightarrow> bcrypt_verify e (strip (password f2)) (row_password r))"
    using wrong by (auto split: option.splits dest: select_user_Some)
  then have two: "login e POST f2 w2 = Inr (Login_page (Some ''Invalid credentials''), w2)"
    by (simp add: login_def Let_def)
  from one two show ?thesis by simp
qed

theorem C6_failed_login_uniform_witness:
  "login stub_env POST \<lparr>username = ''bob'', password = ''pw123''\<rparr> alice_world
     = Inr (Login_page (Some ''Invalid credentials''), alice_world)
   \<and> login stub_env POST \<lparr>username = ''alice'', password = ''guess''\<rparr> alice_world
     = Inr (Login_page (Some ''Invalid credentials''), alice_world)"
proof -
  have unknown: "strip (username \<lparr>username = ''bob'', password = ''pw123''\<rparr>)
                   \<notin> set (map row_username (users alice_world))"
    by code_simp
  have known: "strip (username \<lparr>username = ''alice'', password = ''guess''\<rparr>)
                 \<in> set (map row_username (users alice_world))"
    by code_simp
  have wrong: "\<forall>r \<in> set (users alice_world).
                 row_username r = strip (username \<lparr>username = ''alice'', password = ''guess''\<rparr>) \<longrightarrow>
                 \<not> bcrypt_verify stub_env (strip (password \<lparr>username = ''alice'', password = ''guess''\<rparr>))
                      (row_password r)"
    by code_simp
  show ?thesis
    by (rule C6_failed_login_uniform [OF unknown known wrong])
qed

text \<open>
  Claim C5, as the code has it. A signup whose user name, stripped, is not empty and is
  already in the table, and whose password, stripped, is not empty, is answered with the
  signup page and the message \<^verbatim>\<open>Username already exists\<close>; the table of users, the
  next key, the session and the files are unchanged.
\<close>

theorem C5_duplicate_signup:
  assumes "strip (username form) \<in> set (map row_username (users w))"
    and "strip (username form) \<noteq> []" and "strip (password form) \<noteq> []"
  shows "signup e salt POST form w = Inr (Signup_page (Some ''Username already exists''), w)"
  using assms by (simp add: signup_def insert_user_def Let_def)

theorem C5_duplicate_signup_witness:
  "signup stub_env [7, 7] POST \<lparr>username = '' alice'', password = ''other''\<rparr> alice_world
     = Inr (Signup_page (Some ''Username already exists''), alice_world)"
proof -
  have a: "strip (username \<lparr>username = '' alice'', password = ''other''\<rparr>)
             \<in> set (map row_username (users alice_world))" by code_simp
  have b: "strip (username \<lparr>username = '' alice'', password = ''other''\<rparr>) \<noteq> []" by code_simp
  have c: "strip (password \<lparr>username = '' alice'', password = ''other''\<rparr>) \<noteq> []" by code_simp
  show ?thesis by (rule C5_duplicate_signup [OF a b c])
qed

text \<open>
  Claim C5 as stated fails: with an empty password, a signup for the registered name
  \<^verbatim>\<open>alice\<close> is answered with \<^verbatim>\<open>Username and password required\<close>, the check of
  line 76 coming before the INSERT.
\<close>

theorem C5_blank_password_counterexample:
  "strip (username \<lparr>username = ''alice'', password = []\<rparr>)
      \<in> set (map row_username (users alice_world))
   \<and> signup stub_env [] POST \<lparr>username = ''alice'', password = []\<rparr> alice_world
      \<noteq> Inr (Signup_page (Some ''Username already exists''), alice_world)
   \<and> signup stub_env [] POST \<lparr>username = ''alice'', password = []\<rparr> alice_world
      = Inr (Signup_page (Some ''Username and password required''), alice_world)"
  by code_simp

subsection \<open>Failures of the classification\<close>

lemma getitem_mem: "getitem xs i = Inr x \<Longrightarrow> x \<in> set xs"
  by (auto simp: getitem_def split: if_splits)

lemma try_predict_label:
  "try_predict e name img w = Inr ((label, conf, url), w') \<Longrightarrow> label \<in> set class_names"
  by (auto simp: try_predict_def Let_def split: sum.splits dest: getitem_mem)

lemma file_save_frame:
  "file_save path bytes w = Inr w1 \<Longrightarrow>
     session w1 = session w \<and> users w1 = users w \<and> next_id w1 = next_id w"
  by (auto simp: file_save_def split: if_splits)

text \<open>
  Claim C10. When \<^verbatim>\<open>diagnose\<close> answers with the prediction \<^verbatim>\<open>"Error"\<close>, the session
  (its user and its history) is the one before the request, and so is the table of users.
\<close>

theorem C10_failure_keeps_session:
  assumes "diagnose e m file w = Inr (Diagnose_page (Some ''Error'') conf url, w')"
  shows "session w' = session w \<and> users w' = users w \<and> next_id w' = next_id w"
proof -
  have no: "''Error'' \<notin> set class_names" by (simp add: class_names_def)
  show ?thesis
    using assms no
    by (auto simp: diagnose_def require_login_def Let_def
        split: option.splits if_splits sum.splits prod.splits
        dest!: try_predict_label file_save_frame)
qed

theorem C10_failure_keeps_session_witness:
  "diagnose broken_model_env POST (Some \<lparr>filename = ''leaf.png'', content = [1]\<rparr>) alice_world
     = Inr (Diagnose_page (Some ''Error'') (Some 0) None,
            alice_world\<lparr>files := [(''static/uploads/leaf.png'', [1])]\<rparr>)
   \<and> session (alice_world\<lparr>files := [(''static/uploads/leaf.png'', [1])]\<rparr>) = session alice_world"
proof -
  have run: "diagnose broken_model_env POST (Some \<lparr>filename = ''leaf.png'', content = [1]\<rparr>) alice_world
     = Inr (Diagnose_page (Some ''Error'') (Some 0) None,
            alice_world\<lparr>files := [(''static/uploads/leaf.png'', [1])]\<rparr>)"
    by code_simp
  show ?thesis
    using run C10_failure_keeps_session [OF run] by simp
qed

text \<open>
  The two sides of the \<^verbatim>\<open>try\<close>: an error of the decoder leaves the handler, an error
  of the classifier is answered with the sentinel.
\<close>

lemma diagnose_decoder_error_propagates:
  assumes "sess_user (session w) \<noteq> None" and "upload_accepted (Some f)"
    and "file_save (os_path_join UPLOAD_FOLDER (secure_filename (nfkd_ascii e) (filename f)))
           (content f) w = Inr w1"
    and "load_img e (content f) = Inl err"
  shows "diagnose e POST (Some f) w = Inl err"
proof -
  let ?path = "os_path_join UPLOAD_FOLDER (secure_filename (nfkd_ascii e) (filename f))"
  have "map_of (files w1) ?path = Some (content f)"
    using assms(3) by (auto simp: file_save_def update_conv' split: if_splits)
  then have "prepare_image e w1 ?path = Inl err"
    using assms(4) by (simp add: prepare_image_def)
  then show ?thesis
    using assms(1,2,3) by (auto simp: diagnose_def require_login_def Let_def)
qed

lemma diagnose_model_error_sentinel:
  assumes "sess_user (session w) \<noteq> None" and "upload_accepted (Some f)"
    and "file_save (os_path_join UPLOAD_FOLDER (secure_filename (nfkd_ascii e) (filename f)))
           (content f) w = Inr w1"
    and "prepare_image e w1 (os_path_join UPLOAD_FOLDER (secure_filename (nfkd_ascii e) (filename f)))
           = Inr img"
    and "model_predict e img = Inl err"
  shows "diagnose e POST (Some f) w = Inr (Diagnose_page (Some ''Error'') (Some 0) None, w1)"
proof -
  have "try_predict e (secure_filename (nfkd_ascii e) (filename f)) img w1 = Inl err"
    using assms(5) by (simp add: try_predict_def)
  then show ?thesis
    using assms(1-4) by (auto simp: diagnose_def require_login_def Let_def)
qed

text \<open>
  Claim C1 does not hold for the decoder: \<^verbatim>\<open>prepare_image\<close> is called at line 137,
  outside the \<^verbatim>\<open>try\<close>. For the logged-in user, the upload of a file named
  \<^verbatim>\<open>leaf.png\<close> that the decoder cannot read ends in the decoder's exception instead of
  the answer with \<^verbatim>\<open>"Error"\<close> and 0.
\<close>

theorem C1_decoder_error_escapes:
  "diagnose stub_env POST (Some \<lparr>filename = ''leaf.png'', content = []\<rparr>) alice_world
     = Inl (Raised ''UnidentifiedImageError'')"
  by code_simp

subsection \<open>The label and the confidence\<close>







lemma try_predict_Inr:
  assumes "try_predict e name img w = Inr ((label, conf, url), w')"
  shows "\<exists>probs i m. model_predict e img = Inr probs \<and> np_argmax (concat probs) = Inr i
           \<and> getitem class_names i = Inr label \<and> np_max (concat probs) = Inr m
           \<and> conf = py_round (m * 100) 2 \<and> url = url_for_static (''uploads/'' @ name)
           \<and> w' = w\<lparr>session := (session w)\<lparr>sess_history :=
                      Some (get_history w @ [\<lparr>rec_filename = name, prediction = label,
                                               confidence = conf, image_url = url\<rparr>])\<rparr>\<rparr>"
  using assms by (auto simp: try_predict_def Let_def split: sum.splits)

lemma diagnose_success:
  assumes "diagnose e m up w = Inr (Diagnose_page (Some label) conf (Some url), w')"
  shows "\<exists>f w1 img c.
           up = Some f \<and> m = POST \<and> upload_accepted up \<and> sess_user (session w) \<noteq> None \<and> conf = Some c
         \<and> file_save (os_path_join UPLOAD_FOLDER (secure_filename (nfkd_ascii e) (filename f)))
              (content f) w = Inr w1
         \<and> prepare_image e w1 (os_path_join UPLOAD_FOLDER (secure_filename (nfkd_ascii e) (filename f)))
              = Inr img
         \<and> try_predict e (secure_filename (nfkd_ascii e) (filename f)) img w1 = Inr ((label, c, url), w')"
  using assms
  by (auto simp: diagnose_def require_login_def Let_def
      split: option.splits if_splits sum.splits prod.splits)



subsection \<open>The history of a session\<close>

lemma diagnose_recorded_step:
  assumes "diagnose e POST (Some f) w = Inr (r, w1)" and "recorded r"
  shows "\<exists>d. get_history w1 = get_history w @ [d] \<and> entry_matches e d (f, r)
           \<and> sess_user (session w1) = sess_user (session w)"
proof -
  from assms(2) obtain label conf url where
    r: "r = Diagnose_page (Some label) (Some conf) (Some url)"
    by (cases r rule: recorded.cases) simp_all
  from diagnose_success [OF assms(1) [unfolded r]] obtain w0 img where
    save: "file_save (os_path_join UPLOAD_FOLDER (secure_filename (nfkd_ascii e) (filename f)))
              (content f) w = Inr w0"
    and tp: "try_predict e (secure_filename (nfkd_ascii e) (filename f)) img w0
                = Inr ((label, conf, url), w1)"
    by auto
  let ?d = "\<lparr>rec_filename = secure_filename (nfkd_ascii e) (filename f), prediction = label,
             confidence = conf, image_url = url\<rparr>"
  from try_predict_Inr [OF tp] have
    w1: "w1 = w0\<lparr>session := (session w0)\<lparr>sess_history := Some (get_history w0 @ [?d])\<rparr>\<rparr>"
    by blast
  have frame: "session w0 = session w" using file_save_frame [OF save] by simp
  have "get_history w1 = get_history w @ [?d]"
    unfolding w1 using frame by (simp add: get_history_def)
  moreover have "entry_matches e ?d (f, r)" by (simp add: entry_matches_def r)
  moreover have "sess_user (session w1) = sess_user (session w)"
    unfolding w1 using frame by simp
  ultimately show ?thesis by blast
qed

lemma diagnose_all_history:
  assumes "diagnose_all e fs w = Inr (rs, w')" and "list_all recorded rs"
  shows "\<exists>ds. get_history w' = get_history w @ ds \<and> list_all2 (entry_matches e) ds (zip fs rs)
            \<and> length ds = length fs \<and> sess_user (session w') = sess_user (session w)"
  using assms
proof (induction fs arbitrary: w rs)
  case Nil
  then show ?case by simp
next
  case (Cons f fs)
  from Cons.prems(1) obtain r w1 rs' where
    one: "diagnose e POST (Some f) w = Inr (r, w1)"
    and rest: "diagnose_all e fs w1 = Inr (rs', w')" and rs: "rs = r # rs'"
    by (auto split: sum.splits prod.splits)
  from Cons.prems(2) rs have ok: "recorded r" "list_all recorded rs'" by simp_all
  from diagnose_recorded_step [OF one ok(1)] obtain d where
    d: "get_history w1 = get_history w @ [d]" "entry_matches e d (f, r)"
       "sess_user (session w1) = sess_user (session w)"
    by blast
  from Cons.IH [OF rest ok(2)] obtain ds where
    ds: "get_history w' = get_history w1 @ ds" "list_all2 (entry_matches e) ds (zip fs rs')"
        "length ds = length fs" "sess_user (session w') = sess_user (session w1)"
    by blast
  have "get_history w' = get_history w @ (d # ds)" using d(1) ds(1) by simp
  moreover have "list_all2 (entry_matches e) (d # ds) (zip (f # fs) rs)"
    using d(2) ds(2) rs by simp
  moreover have "length (d # ds) = length (f # fs)" using ds(3) by simp
  moreover have "sess_user (session w') = sess_user (session w)" using d(3) ds(4) by simp
  ultimately show ?case by blast
qed

text \<open>
  Claim C3. In a session with a logged-in user and an empty history, after a run of
  uploads that were all diagnosed successfully, the history has one entry for each upload,
  in the order of the uploads, each agreeing with its upload and its answer, and the
  history page shows it. \<^verbatim>\<open>clear_history\<close> then leaves a history of length 0 and the
  same logged-in user.
\<close>

theorem C3_history_order_and_clear:
  assumes fresh: "get_history w = []" and user: "sess_user (session w) = Some u"
    and run: "diagnose_all e fs w = Inr (rs, w')" and ok: "list_all recorded rs"
  shows "length (get_history w') = length fs
       \<and> list_all2 (entry_matches e) (get_history w') (zip fs rs)
       \<and> history w' = Inr (History_page (get_history w'), w')
       \<and> sess_user (session w') = Some u
       \<and> (\<exists>w''. clear_history w' = Inr (Redirect ''/history'', w'')
                \<and> length (get_history w'') = 0
                \<and> history w'' = Inr (History_page [], w'')
                \<and> sess_user (session w'') = Some u)"
proof -
  from diagnose_all_history [OF run ok] fresh user have
    h: "list_all2 (entry_matches e) (get_history w') (zip fs rs)"
    and n: "length (get_history w') = length fs"
    and u: "sess_user (session w') = Some u"
    by auto
  have page: "history w' = Inr (History_page (get_history w'), w')"
    using u by (simp add: history_def require_login_def)
  let ?w = "w'\<lparr>session := (session w')\<lparr>sess_history := None\<rparr>\<rparr>"
  have c: "clear_history w' = Inr (Redirect ''/history'', ?w)"
    using u by (simp add: clear_history_def require_login_def url_for_def)
  have "length (get_history ?w) = 0" by (simp add: get_history_def)
  moreover have "history ?w = Inr (History_page [], ?w)"
    using u by (simp add: history_def require_login_def get_history_def)
  moreover have "sess_user (session ?w) = Some u" using u by simp
  ultimately show ?thesis using h n page u c by blast
qed

theorem C3_history_order_and_clear_witness:
  "diagnose_all stub_env
      [\<lparr>filename = ''rust_leaf.jpg'', content = [1]\<rparr>, \<lparr>filename = ''b.PNG'', content = [2]\<rparr>]
      alice_world
    = Inr ([Diagnose_page (Some ''Rust'') (Some 87) (Some ''/static/uploads/rust_leaf.jpg''),
            Diagnose_page (Some ''Rust'') (Some 87) (Some ''/static/uploads/b.PNG'')],
           alice_world\<lparr>session := \<lparr>sess_user = Some ''alice'', sess_history = Some
               [\<lparr>rec_filename = ''rust_leaf.jpg'', prediction = ''Rust'', confidence = 87,
                 image_url = ''/static/uploads/rust_leaf.jpg''\<rparr>,
                \<lparr>rec_filename = ''b.PNG'', prediction = ''Rust'', confidence = 87,
                 image_url = ''/static/uploads/b.PNG''\<rparr>]\<rparr>,
              files := [(''static/uploads/rust_leaf.jpg'', [1]), (''static/uploads/b.PNG'', [2])]\<rparr>)
   \<and> length (get_history (alice_world\<lparr>session := \<lparr>sess_user = Some ''alice'', sess_history = Some
               [\<lparr>rec_filename = ''rust_leaf.jpg'', prediction = ''Rust'', confidence = 87,
                 image_url = ''/static/uploads/rust_leaf.jpg''\<rparr>,
                \<lparr>rec_filename = ''b.PNG'', prediction = ''Rust'', confidence = 87,
                 image_url = ''/static/uploads/b.PNG''\<rparr>]\<rparr>,
              files := [(''static/uploads/rust_leaf.jpg'', [1]), (''static/uploads/b.PNG'', [2])]\<rparr>))
      = length [\<lparr>filename = ''rust_leaf.jpg'', content = [1]\<rparr>, \<lparr>filename = ''b.PNG'', content = [2 :: nat]\<rparr>]"
proof -
  have fresh: "get_history alice_world = []" by code_simp
  have user: "sess_user (session alice_world) = Some ''alice''" by code_simp
  have run: "diagnose_all stub_env
      [\<lparr>filename = ''rust_leaf.jpg'', content = [1]\<rparr>, \<lparr>filename = ''b.PNG'', content = [2]\<rparr>]
      alice_world
    = Inr ([Diagnose_page (Some ''Rust'') (Some 87) (Some ''/static/uploads/rust_leaf.jpg''),
            Diagnose_page (Some ''Rust'') (Some 87) (Some ''/static/uploads/b.PNG'')],
           alice_world\<lparr>session := \<lparr>sess_user = Some ''alice'', sess_history = Some
               [\<lparr>rec_filename = ''rust_leaf.jpg'', prediction = ''Rust'', confidence = 87,
                 image_url = ''/static/uploads/rust_leaf.jpg''\<rparr>,
                \<lparr>rec_filename = ''b.PNG'', prediction = ''Rust'', confidence = 87,
                 image_url = ''/static/uploads/b.PNG''\<rparr>]\<rparr>,
              files := [(''static/uploads/rust_leaf.jpg'', [1]), (''static/uploads/b.PNG'', [2])]\<rparr>)"
    by code_simp
  have ok: "list_all recorded
      [Diagnose_page (Some ''Rust'') (Some 87) (Some ''/static/uploads/rust_leaf.jpg''),
       Diagnose_page (Some ''Rust'') (Some 87) (Some ''/static/uploads/b.PNG'')]"
    by simp
  show ?thesis
    using run C3_history_order_and_clear [OF fresh user run ok] by blast
qed

subsection \<open>The storage name stays in the upload area\<close>















end
